theory Spec2Isabelle
  imports Complex_Main "HOL-Library.Word" "HOL-Library.Signed_Division"
begin

section \<open>Conventions of the embedding\<close>

text \<open>
  The package \<^verbatim>\<open>geo\<close> is generic in a float type \<^verbatim>\<open>T\<close>. Coordinates and distances
  are embedded as \<^typ>\<open>real\<close>: comparisons, sums, quotients and the trigonometric
  functions are the exact ones, and infinities and NaN are outside the model. The one
  place where the code turns a float into an integer, the index of the longitude table,
  is decided by the rounding of the float product; there the product is rounded to the
  float format as the code does.
  Indices are Go \<^verbatim>\<open>int\<close>s, embedded as \<^typ>\<open>int\<close>; every index the functions below
  compute is bounded by the length of a buffer, so 64-bit wrap-around never arises.
  A run-time panic of Go (an index or a slice bound out of range, an integer division
  by zero, \<^verbatim>\<open>panic(err)\<close> after a failed decode) is a value \<open>Inl p\<close> of a sum type.
\<close>

datatype panic =
    IndexOutOfRange int int        \<comment> \<open>index, length\<close>
  | SliceBoundsOutOfRange int int int  \<comment> \<open>low, high, capacity\<close>
  | DivideByZero
  | DecodeFailed

section \<open>Geo-math primitives\<close>

definition DegreeToKilometer :: real where
  "DegreeToKilometer = 111.111"

definition EarthRadiusInKM :: real where
  "EarthRadiusInKM = 6371.1"

definition Radian :: real where
  "Radian = pi / 180.0"

definition deg2rad :: "real \<Rightarrow> real" where
  "deg2rad d = d * Radian"

definition LonKilos :: "real \<Rightarrow> real" where
  "LonKilos lat = cos (deg2rad lat) * DegreeToKilometer"

text \<open>The table filled by \<^verbatim>\<open>init\<close>: entry \<open>i\<close> of 901 is \<open>LonKilos (i / 10)\<close>.\<close>

definition lonKmLookup :: "real list" where
  "lonKmLookup = map (\<lambda>i. LonKilos (real i / 10.0)) [0..<901]"

text \<open>Go's conversion \<^verbatim>\<open>int(x)\<close> of a float discards the fraction (rounds toward zero).\<close>

definition go_int :: "real \<Rightarrow> int" where
  "go_int x = (if 0 \<le> x then \<lfloor>x\<rfloor> else \<lceil>x\<rceil>)"

text \<open>
  The two instances of \<^verbatim>\<open>constraints.Float\<close>, IEEE 754 binary32 and binary64: the number
  of bits of the significand and the least exponent of a normal number.
\<close>

datatype FloatT = Float32 | Float64

fun precision :: "FloatT \<Rightarrow> int" where
  "precision Float32 = 24"
| "precision Float64 = 53"

fun emin :: "FloatT \<Rightarrow> int" where
  "emin Float32 = - 126"
| "emin Float64 = - 1022"

definition pow2 :: "int \<Rightarrow> real" where
  "pow2 k = (if 0 \<le> k then 2 ^ nat k else 1 / 2 ^ nat (- k))"

text \<open>The nearest integer, a tie going to the even one.\<close>

definition round_even :: "real \<Rightarrow> int" where
  "round_even x =
     (let f = \<lfloor>x\<rfloor>; d = x - of_int f
      in if d < 1 / 2 then f
         else if 1 / 2 < d then f + 1
         else if even f then f else f + 1)"

text \<open>
  The value of type \<^verbatim>\<open>T\<close> a float operation returns for the exact result \<open>x\<close>: the
  nearest multiple of the unit in the last place of \<open>x\<close>, ties to even (the exponent of
  a subnormal is \<open>emin\<close>). Overflow to an infinity is outside the model.
\<close>

definition rnd :: "FloatT \<Rightarrow> real \<Rightarrow> real" where
  "rnd T x =
     (if x = 0 then 0
      else (let e = max \<lfloor>log 2 \<bar>x\<bar>\<rfloor> (emin T) - (precision T - 1)
            in of_int (round_even (x / pow2 e)) * pow2 e))"

text \<open>
  \<^verbatim>\<open>LookupLonKmPerLat[T]\<close>: the index is \<^verbatim>\<open>int(lat * 10)\<close>, the product taken in \<^verbatim>\<open>T\<close>. Indexing
  the array out of range panics.
\<close>

definition LookupLonKmPerLat :: "FloatT \<Rightarrow> real \<Rightarrow> panic + real" where
  "LookupLonKmPerLat T lat =
     (let idx = go_int (rnd T (lat * 10))
      in if 0 \<le> idx \<and> idx < int (length lonKmLookup)
         then Inr (lonKmLookup ! nat idx)
         else Inl (IndexOutOfRange idx (int (length lonKmLookup))))"

definition LongitudeKilometerDegrees :: "real \<Rightarrow> real \<Rightarrow> real" where
  "LongitudeKilometerDegrees lat kilometers = kilometers / LonKilos lat"

type_synonym Pair = "real \<times> real"
type_synonym Rect = "Pair \<times> Pair"

definition Expand :: "real \<Rightarrow> real \<Rightarrow> real \<Rightarrow> Rect" where
  "Expand lat lon radiusKM =
     (let latx = radiusKM / lon;
          lonx = LongitudeKilometerDegrees lat radiusKM
      in ((lat - latx, lon - lonx), (lat + latx, lon + lonx)))"

definition AreaInRange64 :: "Pair \<Rightarrow> real \<Rightarrow> Rect" where
  "AreaInRange64 pt distance =
     (let lat = fst pt;
          lon = snd pt;
          deltaLat = distance / DegreeToKilometer;
          deltaLon = LongitudeKilometerDegrees lat distance
      in ((lat - deltaLat, lon - deltaLon), (lat + deltaLat, lon + deltaLon)))"

definition Distance :: "real \<Rightarrow> real \<Rightarrow> real \<Rightarrow> real \<Rightarrow> real" where
  "Distance lat1 lon1 lat2 lon2 =
     (let dlat1 = deg2rad lat1;
          dlon1 = deg2rad lon1;
          dlat2 = deg2rad lat2;
          dlon2 = deg2rad lon2
      in arccos (sin dlat1 * sin dlat2 + cos dlat1 * cos dlat2 * cos (dlon2 - dlon1))
           * EarthRadiusInKM)"

definition ApproximateDistanceGeo :: "real \<Rightarrow> real \<Rightarrow> real \<Rightarrow> real \<Rightarrow> panic + real" where
  "ApproximateDistanceGeo lat1 lon1 lat2 lon2 =
     (case LookupLonKmPerLat Float64 lat1 of
        Inl e \<Rightarrow> Inl e
      | Inr lonDegreeKm \<Rightarrow>
          (let a = (lat2 - lat1) * DegreeToKilometer;
               b = (lon2 - lon1) * lonDegreeKm
           in Inr (sqrt (a ^ 2 + b ^ 2))))"

section \<open>Points and their order\<close>

record Point =
  Lat :: real
  Lon :: real

definition Less :: "Point \<Rightarrow> Point \<Rightarrow> bool" where
  "Less p x =
     (if Lat p < Lat x then True
      else if Lat p > Lat x then False
      else Lon p < Lon x)"

definition PointDistance :: "Point \<Rightarrow> Point \<Rightarrow> real" where
  "PointDistance p x = Distance (Lat p) (Lon p) (Lat x) (Lon x)"

definition Approximately :: "Point \<Rightarrow> Point \<Rightarrow> panic + real" where
  "Approximately p x = ApproximateDistanceGeo (Lat p) (Lon p) (Lat x) (Lon x)"

definition between :: "real \<Rightarrow> real \<Rightarrow> real \<Rightarrow> bool" where
  "between check mn mx = (mn \<le> check \<and> check \<le> mx)"

section \<open>Point sequences\<close>

text \<open>
  The interface \<^verbatim>\<open>GeoPoints\<close>: a length and a read by index. A read may panic
  (the mapped store panics on a failed decode, a slice on an index out of range).
\<close>

record GeoPoints =
  Len :: int
  IndexPoint :: "int \<Rightarrow> panic + Point"

text \<open>
  An implementation of \<^verbatim>\<open>GeoPoints\<close> over a Go slice of points, as a caller holding an
  in-memory array passes it: \<^verbatim>\<open>Len\<close> is \<^verbatim>\<open>len(ps)\<close> and \<^verbatim>\<open>IndexPoint(i)\<close> is \<^verbatim>\<open>ps[i]\<close>, which
  panics out of range.
\<close>

definition SlicePoints :: "Point list \<Rightarrow> GeoPoints" where
  "SlicePoints ps =
     \<lparr>Len = int (length ps),
      IndexPoint = (\<lambda>i. if 0 \<le> i \<and> i < int (length ps) then Inr (ps ! nat i)
                         else Inl (IndexOutOfRange i (int (length ps))))\<rparr>"

section \<open>Binary search\<close>

text \<open>
  \<^verbatim>\<open>sort.Search(n, f)\<close> of the Go standard library: the loop
  \<^verbatim>\<open>i, j := 0, n; for i < j { h := int(uint(i+j) >> 1); if !f(h) { i = h + 1 } else { j = h } }; return i\<close>.
  The predicate reads the sequence, so it may panic.
\<close>

function Search_loop :: "(int \<Rightarrow> panic + bool) \<Rightarrow> int \<Rightarrow> int \<Rightarrow> panic + int" where
  "Search_loop f i j =
     (if i < j then
        (let h = (i + j) div 2
         in case f h of
              Inl e \<Rightarrow> Inl e
            | Inr b \<Rightarrow> if \<not> b then Search_loop f (h + 1) j else Search_loop f i h)
      else Inr i)"
  by pat_completeness auto
termination
  by (relation "measure (\<lambda>(f, i, j). nat (j - i))") auto

declare Search_loop.simps [simp del]

definition Search :: "int \<Rightarrow> (int \<Rightarrow> panic + bool) \<Rightarrow> panic + int" where
  "Search n f = Search_loop f 0 n"

text \<open>The seed of both nearest-point searches: \<^verbatim>\<open>sort.Search(g.Len(), func(i) { return pt.Less(g.IndexPoint(i)) })\<close>.\<close>

definition seed :: "GeoPoints \<Rightarrow> Point \<Rightarrow> panic + int" where
  "seed g pt =
     Search (Len g) (\<lambda>i. case IndexPoint g i of Inl e \<Rightarrow> Inl e | Inr h \<Rightarrow> Inr (Less pt h))"

section \<open>Nearest-point search\<close>

text \<open>
  The variables the two scans of \<^verbatim>\<open>Bestest\<close> and \<^verbatim>\<open>Closest\<close> update: the running best
  distance \<open>closest\<close>, its index \<open>best\<close>, the half-width \<open>deltaLon\<close> of the longitude
  corridor read by the closure \<^verbatim>\<open>lonOutside\<close>, and the latitude bound of the scan
  (\<open>minLat\<close> backward, \<open>maxLat\<close> forward; \<^verbatim>\<open>maxLat\<close> is declared between the loops).
\<close>

record scan =
  closest :: real
  best :: int
  deltaLon :: real

record backward = scan +
  minLat :: real

record forward = scan +
  maxLat :: real

definition lonOutside :: "Point \<Rightarrow> real \<Rightarrow> real \<Rightarrow> bool" where
  "lonOutside pt dLon lon =
     (let maxLon = Lon pt + dLon;
          minLon = Lon pt - dLon
      in lon < minLon \<or> lon > maxLon)"

subsection \<open>Bestest: exact distances\<close>

text \<open>\<^verbatim>\<open>for i := x - 1; i > 0; i-- { ... }\<close>\<close>

function Bestest_backward ::
  "GeoPoints \<Rightarrow> Point \<Rightarrow> real \<Rightarrow> int \<Rightarrow> backward \<Rightarrow> panic + backward" where
  "Bestest_backward g pt lonKmPerDegree i s =
     (if i > 0 then
        (case IndexPoint g i of
           Inl e \<Rightarrow> Inl e
         | Inr this \<Rightarrow>
             if Lat this < minLat s then Inr s
             else if lonOutside pt (deltaLon s) (Lon this)
               then Bestest_backward g pt lonKmPerDegree (i - 1) s
             else if PointDistance pt this < closest s
               then Bestest_backward g pt lonKmPerDegree (i - 1)
                      (s\<lparr>closest := PointDistance pt this,
                         best := i,
                         minLat := Lat pt - PointDistance pt this / DegreeToKilometer,
                         deltaLon := PointDistance pt this / lonKmPerDegree\<rparr>)
             else Bestest_backward g pt lonKmPerDegree (i - 1) s)
      else Inr s)"
  by pat_completeness auto
termination
  by (relation "measure (\<lambda>(g, pt, k, i, s). nat i)") auto

declare Bestest_backward.simps [simp del]

text \<open>\<^verbatim>\<open>for i := x + 1; i < g.Len(); i++ { ... }\<close>\<close>

function Bestest_forward ::
  "GeoPoints \<Rightarrow> Point \<Rightarrow> int \<Rightarrow> forward \<Rightarrow> panic + forward" where
  "Bestest_forward g pt i s =
     (if i < Len g then
        (case IndexPoint g i of
           Inl e \<Rightarrow> Inl e
         | Inr this \<Rightarrow>
             if Lat this > maxLat s then Inr s
             else if lonOutside pt (deltaLon s) (Lon this)
               then Bestest_forward g pt (i + 1) s
             else if PointDistance this pt < closest s
               then Bestest_forward g pt (i + 1)
                      (s\<lparr>best := i,
                         closest := PointDistance this pt,
                         maxLat := Lat pt + PointDistance this pt / DegreeToKilometer\<rparr>)
             else Bestest_forward g pt (i + 1) s)
      else Inr s)"
  by pat_completeness auto
termination
  by (relation "measure (\<lambda>(g, pt, i, s). nat (Len g - i))") auto

declare Bestest_forward.simps [simp del]

text \<open>
  How a search ends: by the early \<^verbatim>\<open>return x, -1\<close> after the binary search, or by
  \<^verbatim>\<open>return best, closest\<close> with the variables the forward scan leaves.
\<close>

datatype search_run = SearchFailed int real | Scanned forward

definition returned :: "search_run \<Rightarrow> int \<times> real" where
  "returned r = (case r of SearchFailed x d \<Rightarrow> (x, d) | Scanned s \<Rightarrow> (best s, closest s))"

definition Bestest_run :: "GeoPoints \<Rightarrow> Point \<Rightarrow> real \<Rightarrow> panic + search_run" where
  "Bestest_run g pt deltaKm =
     (case seed g pt of
        Inl e \<Rightarrow> Inl e
      | Inr x \<Rightarrow>
          if x = Len g then Inr (SearchFailed x (- 1))
          else
            (let minLat0 = Lat pt - deltaKm / DegreeToKilometer;
                 best0 = Len g;
                 closest0 = deltaKm + 0.0001
             in case IndexPoint g x of
                  Inl e \<Rightarrow> Inl e
                | Inr this \<Rightarrow>
                    (let dist = PointDistance this pt;
                         closest1 = (if dist < closest0 then dist else closest0);
                         best1 = (if dist < closest0 then x else best0);
                         lonKmPerDegree = LonKilos (Lat pt);
                         deltaLon0 = closest1 / lonKmPerDegree
                     in case Bestest_backward g pt lonKmPerDegree (x - 1)
                               \<lparr>closest = closest1, best = best1, deltaLon = deltaLon0,
                                minLat = minLat0\<rparr> of
                          Inl e \<Rightarrow> Inl e
                        | Inr b \<Rightarrow>
                            (case Bestest_forward g pt (x + 1)
                                    \<lparr>closest = closest b, best = best b, deltaLon = deltaLon b,
                                     maxLat = Lat pt + closest b / DegreeToKilometer\<rparr> of
                               Inl e \<Rightarrow> Inl e
                             | Inr f \<Rightarrow> Inr (Scanned f)))))"

definition Bestest :: "GeoPoints \<Rightarrow> Point \<Rightarrow> real \<Rightarrow> panic + int \<times> real" where
  "Bestest g pt deltaKm =
     (case Bestest_run g pt deltaKm of Inl e \<Rightarrow> Inl e | Inr r \<Rightarrow> Inr (returned r))"

subsection \<open>Closest: approximate distances\<close>

function Closest_backward ::
  "GeoPoints \<Rightarrow> Point \<Rightarrow> real \<Rightarrow> int \<Rightarrow> backward \<Rightarrow> panic + backward" where
  "Closest_backward g pt lonKmPerDegree i s =
     (if i > 0 then
        (case IndexPoint g i of
           Inl e \<Rightarrow> Inl e
         | Inr this \<Rightarrow>
             if Lat this < minLat s then Inr s
             else if lonOutside pt (deltaLon s) (Lon this)
               then Closest_backward g pt lonKmPerDegree (i - 1) s
             else
               (case Approximately pt this of
                  Inl e \<Rightarrow> Inl e
                | Inr dst \<Rightarrow>
                    if dst < closest s
                    then Closest_backward g pt lonKmPerDegree (i - 1)
                           (s\<lparr>closest := dst,
                              best := i,
                              minLat := Lat pt - dst / DegreeToKilometer,
                              deltaLon := dst / lonKmPerDegree\<rparr>)
                    else Closest_backward g pt lonKmPerDegree (i - 1) s))
      else Inr s)"
  by pat_completeness auto
termination
  by (relation "measure (\<lambda>(g, pt, k, i, s). nat i)") auto

declare Closest_backward.simps [simp del]

function Closest_forward ::
  "GeoPoints \<Rightarrow> Point \<Rightarrow> int \<Rightarrow> forward \<Rightarrow> panic + forward" where
  "Closest_forward g pt i s =
     (if i < Len g then
        (case IndexPoint g i of
           Inl e \<Rightarrow> Inl e
         | Inr this \<Rightarrow>
             if Lat this > maxLat s then Inr s
             else if lonOutside pt (deltaLon s) (Lon this)
               then Closest_forward g pt (i + 1) s
             else
               (case Approximately this pt of
                  Inl e \<Rightarrow> Inl e
                | Inr dst \<Rightarrow>
                    if dst < closest s
                    then Closest_forward g pt (i + 1)
                           (s\<lparr>best := i,
                              closest := dst,
                              maxLat := Lat pt + dst / DegreeToKilometer\<rparr>)
                    else Closest_forward g pt (i + 1) s))
      else Inr s)"
  by pat_completeness auto
termination
  by (relation "measure (\<lambda>(g, pt, i, s). nat (Len g - i))") auto

declare Closest_forward.simps [simp del]

definition Closest_run :: "GeoPoints \<Rightarrow> Point \<Rightarrow> real \<Rightarrow> panic + search_run" where
  "Closest_run g pt deltaKm =
     (case seed g pt of
        Inl e \<Rightarrow> Inl e
      | Inr x \<Rightarrow>
          if x = Len g then Inr (SearchFailed x (- 1))
          else
            (let minLat0 = Lat pt - deltaKm / DegreeToKilometer;
                 best0 = x
             in case IndexPoint g x of
                  Inl e \<Rightarrow> Inl e
                | Inr this \<Rightarrow>
                    (case Approximately this pt of
                       Inl e \<Rightarrow> Inl e
                     | Inr dst \<Rightarrow>
                         (case LookupLonKmPerLat Float64 (Lat pt) of
                            Inl e \<Rightarrow> Inl e
                          | Inr lonKmPerDegree \<Rightarrow>
                              (case Closest_backward g pt lonKmPerDegree (x - 1)
                                      \<lparr>closest = dst, best = best0,
                                       deltaLon = dst / lonKmPerDegree, minLat = minLat0\<rparr> of
                                 Inl e \<Rightarrow> Inl e
                               | Inr b \<Rightarrow>
                                   (case Closest_forward g pt (x + 1)
                                           \<lparr>closest = closest b, best = best b,
                                            deltaLon = deltaLon b,
                                            maxLat = Lat pt + closest b / DegreeToKilometer\<rparr> of
                                      Inl e \<Rightarrow> Inl e
                                    | Inr f \<Rightarrow> Inr (Scanned f)))))))"

definition Closest :: "GeoPoints \<Rightarrow> Point \<Rightarrow> real \<Rightarrow> panic + int \<times> real" where
  "Closest g pt deltaKm =
     (case Closest_run g pt deltaKm of Inl e \<Rightarrow> Inl e | Inr r \<Rightarrow> Inr (returned r))"

section \<open>The mapped record store\<close>

text \<open>
  \<^verbatim>\<open>MFile.B\<close> is the mapped byte buffer, a Go slice: \<open>buf\<close> holds its \<^verbatim>\<open>len(B)\<close> bytes and
  \<open>spare\<close> the bytes of its backing array from \<^verbatim>\<open>len(B)\<close> up to \<^verbatim>\<open>cap(B)\<close> (none for the
  slice \<^verbatim>\<open>mmap.Open\<close> returns). The interface \<^verbatim>\<open>Decoder\<close> is implemented by the caller: \<open>Size\<close> is
  the record size, \<open>Decode\<close> fills the decoder from a byte range or fails (\<open>None\<close>), and
  \<open>DPoint\<close> and \<open>DLess\<close> are \<^verbatim>\<open>Point()\<close> and \<^verbatim>\<open>Less(pt)\<close> of the decoder after a \<open>Decode\<close>;
  \<open>'r\<close> is what \<open>Decode\<close> stores.
\<close>

type_synonym byte = "8 word"

record 'r Decoder =
  Size :: int
  Decode :: "byte list \<Rightarrow> 'r option"
  DPoint :: "'r \<Rightarrow> Point"
  DLess :: "'r \<Rightarrow> Point \<Rightarrow> bool"

record 'r Iter =
  buf :: "byte list"        \<comment> \<open>\<^verbatim>\<open>m.m.B\<close>, up to its length\<close>
  spare :: "byte list"      \<comment> \<open>\<^verbatim>\<open>m.m.B\<close>, from its length to its capacity\<close>
  dec :: "'r Decoder"       \<comment> \<open>\<^verbatim>\<open>m.d\<close>\<close>

text \<open>
  The slice expression \<^verbatim>\<open>b[lo:hi]\<close> on a slice with bytes \<open>b\<close> and spare capacity \<open>sp\<close>: it
  panics unless \<open>0 \<le> lo \<le> hi \<le> cap b\<close>, and it reads the backing array, also past the
  length of \<open>b\<close>.
\<close>

definition slice :: "byte list \<Rightarrow> byte list \<Rightarrow> int \<Rightarrow> int \<Rightarrow> panic + byte list" where
  "slice b sp lo hi =
     (if 0 \<le> lo \<and> lo \<le> hi \<and> hi \<le> int (length b + length sp)
      then Inr (take (nat (hi - lo)) (drop (nat lo) (b @ sp)))
      else Inl (SliceBoundsOutOfRange lo hi (int (length b + length sp))))"

text \<open>Go's integer quotient truncates toward zero and panics on a zero divisor.\<close>

definition Iter_Len :: "'r Iter \<Rightarrow> panic + int" where
  "Iter_Len it =
     (if Size (dec it) = 0 then Inl DivideByZero
      else Inr (int (length (buf it)) sdiv Size (dec it)))"

definition Iter_Load :: "'r Iter \<Rightarrow> int \<Rightarrow> panic + 'r" where
  "Iter_Load it i =
     (let off = Size (dec it) * i;
          end' = off + Size (dec it)
      in case slice (buf it) (spare it) off end' of
           Inl e \<Rightarrow> Inl e
         | Inr bs \<Rightarrow>
             (case Decode (dec it) bs of
                None \<Rightarrow> Inl DecodeFailed
              | Some r \<Rightarrow> Inr r))"

definition Iter_IndexPoint :: "'r Iter \<Rightarrow> int \<Rightarrow> panic + Point" where
  "Iter_IndexPoint it i =
     (let off = Size (dec it) * i;
          end' = off + Size (dec it)
      in case slice (buf it) (spare it) off end' of
           Inl e \<Rightarrow> Inl e
         | Inr bs \<Rightarrow>
             (case Decode (dec it) bs of
                None \<Rightarrow> Inl DecodeFailed
              | Some r \<Rightarrow> Inr (DPoint (dec it) r)))"

section \<open>Range scan\<close>

datatype error = ErrNotFound

text \<open>
  The loop of \<^verbatim>\<open>Ranger\<close> has no bound of its own: it ends by \<^verbatim>\<open>break\<close> or by a panic of
  \<^verbatim>\<open>Load\<close>. \<open>calls\<close> collects the records handed to the callback \<^verbatim>\<open>fn\<close>, in the order
  of the calls; the second component of the result is the panic, or the error returned
  (\<open>None\<close> for \<^verbatim>\<open>nil\<close>). The container \<^verbatim>\<open>ctr\<close> is \<open>None\<close> for \<^verbatim>\<open>nil\<close>.
\<close>

partial_function (option) Ranger_loop ::
  "'r Iter \<Rightarrow> Point \<Rightarrow> Point \<Rightarrow> (Point \<Rightarrow> bool) option \<Rightarrow> int \<Rightarrow> 'r list
     \<Rightarrow> ('r list \<times> (panic + error option)) option" where
  "Ranger_loop it from to ctr idx calls =
     (case Iter_Load it idx of
        Inl e \<Rightarrow> Some (calls, Inl e)
      | Inr r \<Rightarrow>
          if \<not> DLess (dec it) r to then Some (calls, Inr None)
          else
            (let pt = DPoint (dec it) r
             in if between (Lon pt) (Lon from) (Lon to)
                then (if (case ctr of None \<Rightarrow> True | Some c \<Rightarrow> c (DPoint (dec it) r))
                      then Ranger_loop it from to ctr (idx + 1) (calls @ [r])
                      else Ranger_loop it from to ctr (idx + 1) calls)
                else Ranger_loop it from to ctr (idx + 1) calls))"

definition Ranger ::
  "'r Iter \<Rightarrow> Point \<Rightarrow> Point \<Rightarrow> (Point \<Rightarrow> bool) option
     \<Rightarrow> ('r list \<times> (panic + error option)) option" where
  "Ranger it from to ctr =
     (case Iter_Len it of
        Inl e \<Rightarrow> Some ([], Inl e)
      | Inr sz \<Rightarrow>
          (case Search sz
                  (\<lambda>i. case Iter_IndexPoint it i of
                          Inl e \<Rightarrow> Inl e
                        | Inr p \<Rightarrow> Inr (Less from p)) of
             Inl e \<Rightarrow> Some ([], Inl e)
           | Inr idx \<Rightarrow>
               if idx = sz then Some ([], Inr (Some ErrNotFound))
               else Ranger_loop it from to ctr idx []))"

text \<open>
  A decoder of two-byte records, latitude then longitude, one unsigned byte each:
  an implementation of \<^verbatim>\<open>Decoder\<close> small enough to run the store on concrete buffers.
\<close>

definition ByteDecoder :: "Point Decoder" where
  "ByteDecoder =
     \<lparr>Size = 2,
      Decode = (\<lambda>bs. case bs of
                        [a, b] \<Rightarrow> Some \<lparr>Lat = real (unat a), Lon = real (unat b)\<rparr>
                      | _ \<Rightarrow> None),
      DPoint = (\<lambda>r. r),
      DLess = (\<lambda>r pt. Less r pt)\<rparr>"

text \<open>
  The points of a store in index order, and the store being sorted under the \<^verbatim>\<open>Point\<close>
  order: no later point is less than an earlier one (a read that panics gives no point
  and constrains nothing).
\<close>

definition Iter_points :: "'r Iter \<Rightarrow> (panic + Point) list" where
  "Iter_points it =
     (case Iter_Len it of
        Inl e \<Rightarrow> []
      | Inr n \<Rightarrow> map (\<lambda>i. Iter_IndexPoint it (int i)) [0..<nat n])"

definition in_order :: "panic + Point \<Rightarrow> panic + Point \<Rightarrow> bool" where
  "in_order a b =
     (case a of
        Inl e \<Rightarrow> True
      | Inr p \<Rightarrow> (case b of Inl e \<Rightarrow> True | Inr q \<Rightarrow> \<not> Less q p))"

definition SortedStore :: "'r Iter \<Rightarrow> bool" where
  "SortedStore it = sorted_wrt in_order (Iter_points it)"

section \<open>Evaluation lemmas\<close>

lemma Len_SlicePoints: "Len (SlicePoints ps) = int (length ps)"
  by (simp add: SlicePoints_def)

lemma IndexPoint_SlicePoints:
  "IndexPoint (SlicePoints ps) i =
     (if 0 \<le> i \<and> i < int (length ps) then Inr (ps ! nat i)
      else Inl (IndexOutOfRange i (int (length ps))))"
  by (simp add: SlicePoints_def)

lemma Search_zero: "Search 0 f = Inr 0"
  by (simp add: Search_def Search_loop.simps)

lemma LonKilos_0: "LonKilos 0 = 111.111"
  by (simp add: LonKilos_def deg2rad_def DegreeToKilometer_def)

lemma length_lonKmLookup: "length lonKmLookup = 901"
  by (simp add: lonKmLookup_def)

lemma lonKmLookup_nth: "i < 901 \<Longrightarrow> lonKmLookup ! i = LonKilos (real i / 10)"
  by (simp add: lonKmLookup_def)

text \<open>Zero and ten are floats of both formats; so is minus ten.\<close>

lemma floor_log2_10: "\<lfloor>log 2 10\<rfloor> = 3"
  by (subst floor_log_eq_powr_iff) simp_all

lemma rnd_0: "rnd T 0 = 0"
  by (simp add: rnd_def)

lemma rnd_10: "rnd T 10 = 10"
  by (cases T) (simp_all add: rnd_def floor_log2_10 pow2_def round_even_def)

lemma rnd_minus_10: "rnd T (- 10) = - 10"
  by (cases T) (simp_all add: rnd_def floor_log2_10 pow2_def round_even_def)

lemma Lookup_0: "LookupLonKmPerLat T 0 = Inr 111.111"
  by (simp add: LookupLonKmPerLat_def rnd_0 go_int_def length_lonKmLookup lonKmLookup_nth
      LonKilos_0)

lemma Lookup_1: "LookupLonKmPerLat T 1 = Inr (LonKilos 1)"
  by (simp add: LookupLonKmPerLat_def rnd_10 go_int_def length_lonKmLookup lonKmLookup_nth)

text \<open>
  The float64 nearest to \<open>90.1\<close> is \<open>3170111925203763 / 2 ^ 45\<close>, just below \<open>90.1\<close>. Its
  exact product with 10 lies halfway between two floats and rounds to 901, an index
  past the table.
\<close>

lemma floor_log2_901: "\<lfloor>log 2 (31701119252037630 / 2 ^ 45)\<rfloor> = 9"
  by (subst floor_log_eq_powr_iff) simp_all

lemma rnd_float64_901: "rnd Float64 (3170111925203763 / 2 ^ 45 * 10) = 901"
  using floor_log2_901 by (simp add: rnd_def pow2_def round_even_def)

lemma Lookup_float64_90_1:
  "3170111925203763 / 2 ^ 45 < (90.1 :: real)
   \<and> LookupLonKmPerLat Float64 (3170111925203763 / 2 ^ 45) = Inl (IndexOutOfRange 901 901)"
  using rnd_float64_901 by (simp add: LookupLonKmPerLat_def go_int_def length_lonKmLookup)

text \<open>One degree of latitude along a meridian, and two degrees of longitude along the equator.\<close>

lemma PointDistance_north:
  "PointDistance \<lparr>Lat = 1, Lon = 0\<rparr> \<lparr>Lat = 0, Lon = 0\<rparr> = pi / 180 * 6371.1"
proof -
  have "arccos (cos (pi / 180)) = pi / 180"
    by (rule arccos_cos) (use pi_gt_zero in auto)
  then show ?thesis
    by (simp add: PointDistance_def Distance_def deg2rad_def Radian_def EarthRadiusInKM_def)
qed

lemma PointDistance_east:
  "PointDistance \<lparr>Lat = 0, Lon = 2\<rparr> \<lparr>Lat = 0, Lon = 0\<rparr> = pi / 90 * 6371.1"
proof -
  have "arccos (cos (pi / 90)) = pi / 90"
    by (rule arccos_cos) (use pi_gt_zero in auto)
  then show ?thesis
    by (simp add: PointDistance_def Distance_def deg2rad_def Radian_def EarthRadiusInKM_def)
qed

lemma Approximately_east:
  "Approximately \<lparr>Lat = 0, Lon = 2\<rparr> \<lparr>Lat = 0, Lon = 0\<rparr> = Inr 222.222"
  by (simp add: Approximately_def ApproximateDistanceGeo_def Lookup_0 DegreeToKilometer_def)

lemma Approximately_north:
  "Approximately \<lparr>Lat = 1, Lon = 0\<rparr> \<lparr>Lat = 0, Lon = 0\<rparr> = Inr 111.111"
  by (simp add: Approximately_def ApproximateDistanceGeo_def Lookup_1 DegreeToKilometer_def)

lemma sdiv_pos: "0 \<le> (a::int) \<Longrightarrow> 0 < b \<Longrightarrow> a sdiv b = a div b"
  by (simp add: signed_divide_int_def sgn_if)

lemma upt_2: "[0..<2] = [0, 1]"
  by (simp add: upt_rec)

section \<open>The binary search on a sorted sequence\<close>

text \<open>
  On a predicate that is defined on \<open>[0, n)\<close> and, once true, stays true, the loop of
  \<^verbatim>\<open>sort.Search\<close> returns the first index where it holds, or \<open>n\<close>.
\<close>

lemma Search_loop_first:
  assumes "\<And>k. 0 \<le> k \<Longrightarrow> k < n \<Longrightarrow> f k = Inr (p k)"
    and "0 \<le> i" "i \<le> j" "j \<le> n"
    and "\<And>k. 0 \<le> k \<Longrightarrow> k < i \<Longrightarrow> \<not> p k"
    and "\<And>k. j \<le> k \<Longrightarrow> k < n \<Longrightarrow> p k"
    and "\<And>k l. 0 \<le> k \<Longrightarrow> k \<le> l \<Longrightarrow> l < n \<Longrightarrow> p k \<Longrightarrow> p l"
  shows "\<exists>x. Search_loop f i j = Inr x \<and> i \<le> x \<and> x \<le> j
           \<and> (\<forall>k. 0 \<le> k \<and> k < x \<longrightarrow> \<not> p k) \<and> (\<forall>k. x \<le> k \<and> k < n \<longrightarrow> p k)"
  using assms
proof (induction f i j rule: Search_loop.induct)
  case (1 f i j)
  note tot = "1.prems"(1) and mono = "1.prems"(7)
  show ?case
  proof (cases "i < j")
    case False
    with "1.prems"(3) have "i = j" by simp
    then have "Search_loop f i j = Inr i" by (simp add: Search_loop.simps)
    with "1.prems"(5,6) \<open>i = j\<close> show ?thesis by simp
  next
    case True
    define h where "h = (i + j) div 2"
    have hb: "i \<le> h" "h < j" using True by (simp_all add: h_def)
    have h0: "0 \<le> h" "h < n" "h \<le> n" using hb "1.prems"(2,4) by simp_all
    have fh: "f h = Inr (p h)" using h0 by (simp add: tot)
    show ?thesis
    proof (cases "p h")
      case ph: True
      have step: "Search_loop f i j = Search_loop f i h"
        using \<open>i < j\<close> fh ph by (subst Search_loop.simps) (simp add: h_def)
      have upper: "p k" if "h \<le> k" "k < n" for k
        using mono [OF h0(1) that ph] .
      have nn: "\<not> \<not> p h" using ph by simp
      have "\<exists>x. Search_loop f i h = Inr x \<and> i \<le> x \<and> x \<le> h
              \<and> (\<forall>k. 0 \<le> k \<and> k < x \<longrightarrow> \<not> p k) \<and> (\<forall>k. x \<le> k \<and> k < n \<longrightarrow> p k)"
      proof (rule "1.IH"(2) [OF \<open>i < j\<close> h_def fh nn])
        show "f k = Inr (p k)" if "0 \<le> k" "k < n" for k using that by (rule tot)
        show "0 \<le> i" by (rule "1.prems"(2))
        show "i \<le> h" by (rule hb(1))
        show "h \<le> n" by (rule h0(3))
        show "\<not> p k" if "0 \<le> k" "k < i" for k using that by (rule "1.prems"(5))
        show "p k" if "h \<le> k" "k < n" for k using that by (rule upper)
        show "p l" if "0 \<le> k" "k \<le> l" "l < n" "p k" for k l using that by (rule mono)
      qed
      then obtain x where x: "Search_loop f i h = Inr x" "i \<le> x" "x \<le> h"
        "\<forall>k. 0 \<le> k \<and> k < x \<longrightarrow> \<not> p k" "\<forall>k. x \<le> k \<and> k < n \<longrightarrow> p k"
        by blast
      from x(3) hb(2) have "x \<le> j" by simp
      with x step show ?thesis by (intro exI [of _ x]) simp
    next
      case nph: False
      have step: "Search_loop f i j = Search_loop f (h + 1) j"
        using \<open>i < j\<close> fh nph by (subst Search_loop.simps) (simp add: h_def)
      have lower: "\<not> p k" if "0 \<le> k" "k < h + 1" for k
      proof
        assume "p k"
        from that have "k \<le> h" by simp
        from mono [OF that(1) this h0(2) \<open>p k\<close>] nph show False by simp
      qed
      have b1: "0 \<le> h + 1" "h + 1 \<le> j" using h0 hb by simp_all
      have "\<exists>x. Search_loop f (h + 1) j = Inr x \<and> h + 1 \<le> x \<and> x \<le> j
              \<and> (\<forall>k. 0 \<le> k \<and> k < x \<longrightarrow> \<not> p k) \<and> (\<forall>k. x \<le> k \<and> k < n \<longrightarrow> p k)"
      proof (rule "1.IH"(1) [OF \<open>i < j\<close> h_def fh nph])
        show "f k = Inr (p k)" if "0 \<le> k" "k < n" for k using that by (rule tot)
        show "0 \<le> h + 1" by (rule b1(1))
        show "h + 1 \<le> j" by (rule b1(2))
        show "j \<le> n" by (rule "1.prems"(4))
        show "\<not> p k" if "0 \<le> k" "k < h + 1" for k using that by (rule lower)
        show "p k" if "j \<le> k" "k < n" for k using that by (rule "1.prems"(6))
        show "p l" if "0 \<le> k" "k \<le> l" "l < n" "p k" for k l using that by (rule mono)
      qed
      then obtain x where x: "Search_loop f (h + 1) j = Inr x" "h + 1 \<le> x" "x \<le> j"
        "\<forall>k. 0 \<le> k \<and> k < x \<longrightarrow> \<not> p k" "\<forall>k. x \<le> k \<and> k < n \<longrightarrow> p k"
        by blast
      from x(2) hb(1) have "i \<le> x" by simp
      with x step show ?thesis by (intro exI [of _ x]) simp
    qed
  qed
qed

lemma Less_after: "Less p a \<Longrightarrow> \<not> Less b a \<Longrightarrow> Less p b"
  by (auto simp: Less_def split: if_splits)

text \<open>
  What the seed is on a sorted slice: the first index whose point is strictly greater
  than the query. Every point below it is less than or equal to the query.
\<close>

lemma seed_first_greater:
  assumes srt: "sorted_wrt (\<lambda>a b. \<not> Less b a) ps"
  shows "\<exists>x. seed (SlicePoints ps) pt = Inr x \<and> 0 \<le> x \<and> x \<le> int (length ps)
           \<and> (\<forall>k. 0 \<le> k \<and> k < x \<longrightarrow> \<not> Less pt (ps ! nat k))
           \<and> (\<forall>k. x \<le> k \<and> k < int (length ps) \<longrightarrow> Less pt (ps ! nat k))"
proof -
  let ?n = "int (length ps)"
  let ?f = "\<lambda>i. case IndexPoint (SlicePoints ps) i of Inl e \<Rightarrow> Inl e | Inr h \<Rightarrow> Inr (Less pt h)"
  let ?p = "\<lambda>k. Less pt (ps ! nat k)"
  have tot: "?f k = Inr (?p k)" if "0 \<le> k" "k < ?n" for k
    using that by (simp add: IndexPoint_SlicePoints)
  have mono: "?p l" if "0 \<le> k" "k \<le> l" "l < ?n" "?p k" for k l
  proof (cases "k = l")
    case True
    with that show ?thesis by simp
  next
    case False
    with that have "nat k < nat l" "nat l < length ps" by simp_all
    with srt have "\<not> Less (ps ! nat l) (ps ! nat k)"
      by (simp add: sorted_wrt_iff_nth_less)
    with \<open>?p k\<close> show ?thesis by (rule Less_after)
  qed
  have "\<exists>x. Search_loop ?f 0 ?n = Inr x \<and> 0 \<le> x \<and> x \<le> ?n
           \<and> (\<forall>k. 0 \<le> k \<and> k < x \<longrightarrow> \<not> ?p k) \<and> (\<forall>k. x \<le> k \<and> k < ?n \<longrightarrow> ?p k)"
    by (rule Search_loop_first [where p = ?p and n = ?n]) (simp_all add: tot mono)
  then show ?thesis by (simp add: seed_def Search_def Len_SlicePoints)
qed

lemma seed_single_greater:
  "seed (SlicePoints [\<lparr>Lat = 1, Lon = 0\<rparr>]) \<lparr>Lat = 0, Lon = 0\<rparr> = Inr 0"
  by (simp add: seed_def Search_def Search_loop.simps Len_SlicePoints IndexPoint_SlicePoints
      Less_def)

lemma seed_single_equal:
  "seed (SlicePoints [\<lparr>Lat = 0, Lon = 0\<rparr>]) \<lparr>Lat = 0, Lon = 0\<rparr> = Inr 1"
  by (simp add: seed_def Search_def Search_loop.simps Len_SlicePoints IndexPoint_SlicePoints
      Less_def)

lemma seed_pair:
  "seed (SlicePoints [\<lparr>Lat = 0, Lon = 2\<rparr>, \<lparr>Lat = 1, Lon = 0\<rparr>]) \<lparr>Lat = 0, Lon = 0\<rparr> = Inr 0"
  by (simp add: seed_def Search_def Search_loop.simps Len_SlicePoints IndexPoint_SlicePoints
      Less_def)

section \<open>Properties of the nearest-point search\<close>

text \<open>
  C1. When \<^verbatim>\<open>Bestest\<close> finds no candidate within the radius after a successful binary
  search, it should return the length of the sequence with a negative distance. On the
  one-point sequence \<open>[(1, 0)]\<close>, query \<open>(0, 0)\<close> and radius 1 km the binary search
  gives index 0, the only point is about 111 km away, and the function returns the
  length with the seed distance \<open>1.0001\<close>, which is positive.
\<close>

theorem Bestest_not_found_positive_distance:
  "Bestest (SlicePoints [\<lparr>Lat = 1, Lon = 0\<rparr>]) \<lparr>Lat = 0, Lon = 0\<rparr> 1 = Inr (1, 1.0001)"
proof -
  have far: "\<not> pi / 180 * 6371.1 < (1 + 0.0001 :: real)"
    using pi_ge_two by simp
  show ?thesis
    using far
    by (simp add: Bestest_def Bestest_run_def seed_single_greater returned_def Len_SlicePoints
        IndexPoint_SlicePoints PointDistance_north Bestest_backward.simps
        Bestest_forward.simps)
qed

text \<open>
  C2. A sequence that holds a point equal to the query should make \<^verbatim>\<open>Bestest\<close>, with a
  positive radius, return that point's index and distance 0. On the one-point sequence
  \<open>[(0, 0)]\<close> with query \<open>(0, 0)\<close> and radius 1 km, the binary search asks for a point
  strictly greater than the query, finds none, and the function returns not-found.
\<close>

theorem Bestest_misses_equal_point:
  "Bestest (SlicePoints [\<lparr>Lat = 0, Lon = 0\<rparr>]) \<lparr>Lat = 0, Lon = 0\<rparr> 1 = Inr (1, - 1)"
  by (simp add: Bestest_def Bestest_run_def seed_single_equal returned_def Len_SlicePoints)

text \<open>
  C4. The seed index should be the first index whose point is not less than the query,
  so that a point equal to the query sits at the seed and never below it. On \<open>[(0, 0)]\<close>
  with query \<open>(0, 0)\<close> the seed is 1: the point at index 0, below the seed, is the
  query itself and is not strictly less than it.
\<close>

theorem seed_passes_equal_point:
  "seed (SlicePoints [\<lparr>Lat = 0, Lon = 0\<rparr>]) \<lparr>Lat = 0, Lon = 0\<rparr> = Inr 1
   \<and> IndexPoint (SlicePoints [\<lparr>Lat = 0, Lon = 0\<rparr>]) 0 = Inr \<lparr>Lat = 0, Lon = 0\<rparr>
   \<and> \<not> Less \<lparr>Lat = 0, Lon = 0\<rparr> \<lparr>Lat = 0, Lon = 0\<rparr>"
  by (simp add: seed_def Search_def Search_loop.simps Len_SlicePoints IndexPoint_SlicePoints
      Less_def)

text \<open>
  C5. Every improvement of the running best, in either scan of either variant, should
  recompute the corridor half-width \<open>deltaLon\<close> as the new best divided by the
  kilometres per degree of longitude at the query latitude. On the sequence
  \<open>[(0, 2), (1, 0)]\<close> with query \<open>(0, 0)\<close> and radius 1000 km the seed is index 0 and the
  forward scan improves the best at index 1. Both variants end with the \<open>deltaLon\<close> of
  the first hit: \<open>Bestest\<close> keeps twice the new best over \<open>111.111\<close>, and \<open>Closest\<close> keeps
  2 where the new best \<open>111.111\<close> over \<open>111.111\<close> is 1.
\<close>

theorem forward_scan_keeps_stale_corridor:
  "Bestest_run (SlicePoints [\<lparr>Lat = 0, Lon = 2\<rparr>, \<lparr>Lat = 1, Lon = 0\<rparr>]) \<lparr>Lat = 0, Lon = 0\<rparr> 1000
     = Inr (Scanned \<lparr>closest = pi / 180 * 6371.1, best = 1,
                     deltaLon = 2 * (pi / 180 * 6371.1) / 111.111,
                     maxLat = pi / 180 * 6371.1 / 111.111\<rparr>)
   \<and> LonKilos (Lat \<lparr>Lat = 0, Lon = 0\<rparr>) = 111.111
   \<and> Closest_run (SlicePoints [\<lparr>Lat = 0, Lon = 2\<rparr>, \<lparr>Lat = 1, Lon = 0\<rparr>]) \<lparr>Lat = 0, Lon = 0\<rparr> 1000
     = Inr (Scanned \<lparr>closest = 111.111, best = 1, deltaLon = 2, maxLat = 1\<rparr>)
   \<and> LookupLonKmPerLat Float64 (Lat \<lparr>Lat = 0, Lon = 0\<rparr>) = Inr 111.111"
proof -
  have a: "pi / 90 * 6371.1 < (1000 + 0.0001 :: real)"
    using pi_less_4 by simp
  have b: "\<not> pi / 90 * 6371.1 / 111.111 < (1::real)"
    using pi_ge_two by (simp add: field_simps)
  have c: "\<not> 0 < - (pi / 90 * 6371.1 / 111.111)" "\<not> pi / 90 * 6371.1 / 111.111 < 0"
    using pi_gt_zero by (simp_all add: field_simps)
  have d: "pi / 180 * 6371.1 < pi / 90 * 6371.1"
    using pi_gt_zero by simp
  have exact: "Bestest_run (SlicePoints [\<lparr>Lat = 0, Lon = 2\<rparr>, \<lparr>Lat = 1, Lon = 0\<rparr>])
                 \<lparr>Lat = 0, Lon = 0\<rparr> 1000
     = Inr (Scanned \<lparr>closest = pi / 180 * 6371.1, best = 1,
                     deltaLon = pi / 90 * 6371.1 / 111.111,
                     maxLat = pi / 180 * 6371.1 / 111.111\<rparr>)"
    using a b c d
    by (simp add: Bestest_run_def seed_pair Len_SlicePoints IndexPoint_SlicePoints
        PointDistance_north PointDistance_east Bestest_backward.simps Bestest_forward.simps
        LonKilos_0 lonOutside_def DegreeToKilometer_def)
  have approx: "Closest_run (SlicePoints [\<lparr>Lat = 0, Lon = 2\<rparr>, \<lparr>Lat = 1, Lon = 0\<rparr>])
                  \<lparr>Lat = 0, Lon = 0\<rparr> 1000
     = Inr (Scanned \<lparr>closest = 111.111, best = 1, deltaLon = 2, maxLat = 1\<rparr>)"
    by (simp add: Closest_run_def seed_pair Len_SlicePoints IndexPoint_SlicePoints
        Approximately_north Approximately_east Closest_backward.simps Closest_forward.simps
        Lookup_0 lonOutside_def DegreeToKilometer_def)
  show ?thesis
    using exact approx by (simp add: LonKilos_0 Lookup_0)
qed

text \<open>
  C9. On a sequence of length 0 both searches return index 0 and distance \<open>-1\<close>. The
  read function \<open>ip\<close> is arbitrary, also one that panics at every index, so no element
  is read.
\<close>

theorem empty_sequence_not_found:
  "Bestest \<lparr>Len = 0, IndexPoint = ip\<rparr> pt deltaKm = Inr (0, - 1)
   \<and> Closest \<lparr>Len = 0, IndexPoint = ip\<rparr> pt deltaKm = Inr (0, - 1)"
  by (simp add: Bestest_def Bestest_run_def Closest_def Closest_run_def seed_def Search_zero
      returned_def)

section \<open>Properties of the geo-math primitives\<close>

text \<open>
  C3. \<^verbatim>\<open>Expand\<close> should return a box whose latitude half-width is the radius over
  \<open>111.111\<close> and whose longitude half-width is the radius over the kilometres per
  degree of longitude at the latitude. At latitude 0, longitude 1 and radius 1 km the
  longitude half-width is \<open>1 / 111.111\<close>, but the latitude half-width is 1 degree: the
  radius divided by the longitude argument. \<^verbatim>\<open>AreaInRange64\<close> on the same input gives
  \<open>1 / 111.111\<close> on both axes.
\<close>

theorem Expand_divides_by_longitude:
  "Expand 0 1 1 = ((- 1, 1 - 1 / 111.111), (1, 1 + 1 / 111.111))
   \<and> AreaInRange64 (0, 1) 1
       = ((- (1 / 111.111), 1 - 1 / 111.111), (1 / 111.111, 1 + 1 / 111.111))"
  by (simp add: Expand_def AreaInRange64_def LongitudeKilometerDegrees_def LonKilos_0
      DegreeToKilometer_def Let_def)

text \<open>
  C7. For every latitude of absolute value below \<open>90.1\<close> the lookup should read the
  901-entry table in bounds and return a value, negative latitudes included. At latitude
  \<open>-1\<close> the product \<open>-10\<close> is exact in both float formats, the index is \<open>-10\<close> and the
  read panics, while \<^verbatim>\<open>LonKilos\<close>, which filled the table, gives latitude \<open>-1\<close> the value
  of latitude 1.
\<close>

theorem LookupLonKmPerLat_negative_latitude:
  "\<bar>- 1\<bar> < (90.1 :: real)
   \<and> LookupLonKmPerLat Float32 (- 1) = Inl (IndexOutOfRange (- 10) 901)
   \<and> LookupLonKmPerLat Float64 (- 1) = Inl (IndexOutOfRange (- 10) 901)
   \<and> LonKilos (- 1) = LonKilos 1"
  by (simp add: LookupLonKmPerLat_def rnd_minus_10 go_int_def length_lonKmLookup
      LonKilos_def deg2rad_def)

section \<open>Properties of the mapped record store\<close>

lemma take_drop_within:
  "n + m \<le> length xs \<Longrightarrow> take m (drop n (xs @ ys)) = take m (drop n xs)"
  by simp

text \<open>
  C10. For a record size \<open>s > 0\<close>, \<^verbatim>\<open>Len()\<close> is the length of the buffer divided by \<open>s\<close>,
  rounded down, and for every index \<open>i\<close> with \<open>0 \<le> i < Len()\<close> the read \<^verbatim>\<open>IndexPoint(i)\<close>
  hands the decoder the \<open>s\<close> bytes at offsets \<open>s * i\<close> up to \<open>s * i + s\<close>, a range that
  ends within the length of the buffer, whatever its spare capacity. A trailing partial
  record is beyond every such index: it is never sliced and never decoded.
\<close>

theorem Iter_reads_whole_records:
  assumes "0 < Size (dec it)"
  shows "Iter_Len it = Inr (int (length (buf it)) div Size (dec it))
    \<and> (\<forall>i. 0 \<le> i \<and> i < int (length (buf it)) div Size (dec it) \<longrightarrow>
          Size (dec it) * i + Size (dec it) \<le> int (length (buf it))
        \<and> slice (buf it) (spare it) (Size (dec it) * i) (Size (dec it) * i + Size (dec it))
            = Inr (take (nat (Size (dec it))) (drop (nat (Size (dec it) * i)) (buf it)))
        \<and> length (take (nat (Size (dec it))) (drop (nat (Size (dec it) * i)) (buf it)))
            = nat (Size (dec it))
        \<and> Iter_IndexPoint it i =
            (case Decode (dec it)
                    (take (nat (Size (dec it))) (drop (nat (Size (dec it) * i)) (buf it))) of
               None \<Rightarrow> Inl DecodeFailed
             | Some r \<Rightarrow> Inr (DPoint (dec it) r)))"
proof -
  let ?s = "Size (dec it)" and ?L = "int (length (buf it))"
  have len: "Iter_Len it = Inr (?L div ?s)"
    using assms by (simp add: Iter_Len_def sdiv_pos)
  have rest: "?s * i + ?s \<le> ?L
        \<and> slice (buf it) (spare it) (?s * i) (?s * i + ?s)
            = Inr (take (nat ?s) (drop (nat (?s * i)) (buf it)))
        \<and> length (take (nat ?s) (drop (nat (?s * i)) (buf it))) = nat ?s
        \<and> Iter_IndexPoint it i =
            (case Decode (dec it) (take (nat ?s) (drop (nat (?s * i)) (buf it))) of
               None \<Rightarrow> Inl DecodeFailed
             | Some r \<Rightarrow> Inr (DPoint (dec it) r))"
    if i: "0 \<le> i" "i < ?L div ?s" for i
  proof -
    have "i + 1 \<le> ?L div ?s" using i by simp
    then have "(i + 1) * ?s \<le> (?L div ?s) * ?s"
      using assms by (simp add: mult_right_mono)
    also have "\<dots> \<le> ?L"
      using assms by (simp add: minus_mod_eq_div_mult [symmetric])
    finally have hi: "?s * i + ?s \<le> ?L" by (simp add: algebra_simps)
    have lo: "0 \<le> ?s * i" using assms i by simp
    have within: "nat (?s * i) + nat ?s \<le> length (buf it)"
      using hi lo assms by linarith
    have "take (nat ?s) (drop (nat (?s * i)) (buf it @ spare it))
            = take (nat ?s) (drop (nat (?s * i)) (buf it))"
      using within by (rule take_drop_within)
    then have sl: "slice (buf it) (spare it) (?s * i) (?s * i + ?s)
                = Inr (take (nat ?s) (drop (nat (?s * i)) (buf it)))"
      using hi lo assms by (simp add: slice_def)
    have ln: "length (take (nat ?s) (drop (nat (?s * i)) (buf it))) = nat ?s"
      using within by simp
    show ?thesis using hi sl ln by (simp add: Iter_IndexPoint_def Let_def)
  qed
  show ?thesis using len rest by blast
qed

theorem Iter_reads_whole_records_witness:
  "0 < Size (dec \<lparr>buf = [1, 1, 2], spare = [], dec = ByteDecoder\<rparr>)
   \<and> Iter_Len \<lparr>buf = [1, 1, 2], spare = [], dec = ByteDecoder\<rparr> = Inr 1
   \<and> Iter_IndexPoint \<lparr>buf = [1, 1, 2], spare = [], dec = ByteDecoder\<rparr> 0
       = Inr \<lparr>Lat = 1, Lon = 1\<rparr>"
proof -
  let ?it = "\<lparr>buf = [1, 1, 2], spare = [], dec = ByteDecoder\<rparr>"
  have s: "0 < Size (dec ?it)"
    by (simp add: ByteDecoder_def)
  note whole = Iter_reads_whole_records [OF s]
  from whole have len: "Iter_Len ?it = Inr 1"
    by (simp add: ByteDecoder_def)
  have "(0::int) \<le> 0 \<and> 0 < int (length (buf ?it)) div Size (dec ?it)"
    by (simp add: ByteDecoder_def)
  with whole have "Iter_IndexPoint ?it 0 =
      (case Decode (dec ?it) (take (nat (Size (dec ?it))) (drop (nat (Size (dec ?it) * 0)) (buf ?it))) of
         None \<Rightarrow> Inl DecodeFailed
       | Some r \<Rightarrow> Inr (DPoint (dec ?it) r))"
    by blast
  then have rd: "Iter_IndexPoint ?it 0 = Inr \<lparr>Lat = 1, Lon = 1\<rparr>"
    by (simp add: ByteDecoder_def)
  show ?thesis using s len rd by simp
qed

section \<open>Properties of the range scan\<close>

text \<open>
  C6. \<^verbatim>\<open>Ranger\<close> should read records only at indices below \<^verbatim>\<open>Len()\<close>. On a store of one
  two-byte record \<open>(1, 1)\<close> with no spare capacity, scanned from \<open>(0, 0)\<close> to \<open>(9, 9)\<close>, the
  record is handed to the callback, the index moves to 1, which is \<^verbatim>\<open>Len()\<close>, and
  \<^verbatim>\<open>Load(1)\<close> slices bytes 2 to 4 of a buffer of 2 bytes: the scan ends in a panic.
\<close>

theorem Ranger_reads_past_the_last_record:
  "Iter_Len \<lparr>buf = [1, 1], spare = [], dec = ByteDecoder\<rparr> = Inr 1
   \<and> Ranger \<lparr>buf = [1, 1], spare = [], dec = ByteDecoder\<rparr>
         \<lparr>Lat = 0, Lon = 0\<rparr> \<lparr>Lat = 9, Lon = 9\<rparr> None
       = Some ([\<lparr>Lat = 1, Lon = 1\<rparr>], Inl (SliceBoundsOutOfRange 2 4 2))"
proof -
  let ?it = "\<lparr>buf = [1, 1], spare = [], dec = ByteDecoder\<rparr>"
  have len: "Iter_Len ?it = Inr 1"
    by (simp add: Iter_Len_def ByteDecoder_def sdiv_pos)
  have idx: "Search 1 (\<lambda>i. case Iter_IndexPoint ?it i of
                              Inl e \<Rightarrow> Inl e
                            | Inr p \<Rightarrow> Inr (Less \<lparr>Lat = 0, Lon = 0\<rparr> p)) = Inr 0"
    by (simp add: Search_def Search_loop.simps Iter_IndexPoint_def ByteDecoder_def slice_def
        Less_def)
  have loop: "Ranger_loop ?it \<lparr>Lat = 0, Lon = 0\<rparr> \<lparr>Lat = 9, Lon = 9\<rparr> None 0 []
              = Some ([\<lparr>Lat = 1, Lon = 1\<rparr>], Inl (SliceBoundsOutOfRange 2 4 2))"
    by (simp add: Ranger_loop.simps Iter_Load_def ByteDecoder_def slice_def Less_def
        between_def)
  show ?thesis
    using len idx loop by (simp add: Ranger_def)
qed

text \<open>
  C8. On a sorted store, the records \<^verbatim>\<open>Ranger\<close> hands to the callback should come in
  non-decreasing order under the \<^verbatim>\<open>Point\<close> order, each with its longitude between those
  of the bounds and its point strictly less than \<open>to\<close>. Take the backing array
  \<open>[1, 1, 2, 2, 0, 3]\<close> and the buffer its first four bytes: the store has the two
  records \<open>(1, 1)\<close> and \<open>(2, 2)\<close>, in order, and two bytes of spare capacity. Scanned
  from \<open>(0, 0)\<close> to \<open>(9, 9)\<close>, the loop runs past \<^verbatim>\<open>Len()\<close>, decodes the spare bytes and
  hands \<open>(0, 3)\<close> to the callback after \<open>(2, 2)\<close>, although \<open>(0, 3)\<close> is less than
  \<open>(2, 2)\<close>; then it panics.
\<close>

theorem Ranger_hands_over_unordered_record:
  "Iter_Len \<lparr>buf = [1, 1, 2, 2], spare = [0, 3], dec = ByteDecoder\<rparr> = Inr 2
   \<and> SortedStore \<lparr>buf = [1, 1, 2, 2], spare = [0, 3], dec = ByteDecoder\<rparr>
   \<and> Ranger \<lparr>buf = [1, 1, 2, 2], spare = [0, 3], dec = ByteDecoder\<rparr>
         \<lparr>Lat = 0, Lon = 0\<rparr> \<lparr>Lat = 9, Lon = 9\<rparr> None
       = Some ([\<lparr>Lat = 1, Lon = 1\<rparr>, \<lparr>Lat = 2, Lon = 2\<rparr>, \<lparr>Lat = 0, Lon = 3\<rparr>],
               Inl (SliceBoundsOutOfRange 6 8 6))
   \<and> Less \<lparr>Lat = 0, Lon = 3\<rparr> \<lparr>Lat = 2, Lon = 2\<rparr>"
proof -
  let ?it = "\<lparr>buf = [1, 1, 2, 2], spare = [0, 3], dec = ByteDecoder\<rparr>"
  have len: "Iter_Len ?it = Inr 2"
    by (simp add: Iter_Len_def ByteDecoder_def sdiv_pos)
  have pts: "Iter_points ?it = [Iter_IndexPoint ?it 0, Iter_IndexPoint ?it 1]"
    by (simp add: Iter_points_def len upt_2)
  have p0: "Iter_IndexPoint ?it 0 = Inr \<lparr>Lat = 1, Lon = 1\<rparr>"
    by (simp add: Iter_IndexPoint_def ByteDecoder_def slice_def)
  have p1: "Iter_IndexPoint ?it 1 = Inr \<lparr>Lat = 2, Lon = 2\<rparr>"
    by (simp add: Iter_IndexPoint_def ByteDecoder_def slice_def)
  have srt: "SortedStore ?it"
    by (simp add: SortedStore_def pts p0 p1 in_order_def Less_def)
  have idx: "Search 2 (\<lambda>i. case Iter_IndexPoint ?it i of
                              Inl e \<Rightarrow> Inl e
                            | Inr p \<Rightarrow> Inr (Less \<lparr>Lat = 0, Lon = 0\<rparr> p)) = Inr 0"
    by (simp add: Search_def Search_loop.simps Iter_IndexPoint_def ByteDecoder_def slice_def
        Less_def)
  have loop: "Ranger_loop ?it \<lparr>Lat = 0, Lon = 0\<rparr> \<lparr>Lat = 9, Lon = 9\<rparr> None 0 []
              = Some ([\<lparr>Lat = 1, Lon = 1\<rparr>, \<lparr>Lat = 2, Lon = 2\<rparr>, \<lparr>Lat = 0, Lon = 3\<rparr>],
                      Inl (SliceBoundsOutOfRange 6 8 6))"
    by (simp add: Ranger_loop.simps Iter_Load_def ByteDecoder_def slice_def Less_def
        between_def)
  show ?thesis
    using len srt idx loop by (simp add: Ranger_def Less_def)
qed

subsection \<open>The scan of a store without spare capacity\<close>

text \<open>
  When the capacity of the buffer is its length, as for a mapped file, the reads past
  \<^verbatim>\<open>Len()\<close> panic instead of decoding, and the records handed over before the panic are
  in order and within the bounds.
\<close>

lemma IndexPoint_Load:
  "Iter_IndexPoint it i =
     (case Iter_Load it i of Inl e \<Rightarrow> Inl e | Inr r \<Rightarrow> Inr (DPoint (dec it) r))"
  by (simp add: Iter_IndexPoint_def Iter_Load_def Let_def split: sum.splits option.splits)

lemma Load_bounds:
  assumes s: "0 < Size (dec it)" and l: "Iter_Load it i = Inr r" and ns: "spare it = []"
  shows "0 \<le> i \<and> i < int (length (buf it)) div Size (dec it) \<and> i < int (length (buf it))"
proof -
  let ?s = "Size (dec it)" and ?L = "int (length (buf it))"
  from l ns have sl: "0 \<le> ?s * i \<and> ?s * i + ?s \<le> ?L"
    by (auto simp: Iter_Load_def Let_def slice_def split: if_splits)
  then have i0: "0 \<le> i" using s by (simp add: zero_le_mult_iff)
  from sl have "?s * (i + 1) \<le> ?L" by (simp add: algebra_simps)
  then have "(?s * (i + 1)) div ?s \<le> ?L div ?s"
    using s by (intro zdiv_mono1) auto
  then have d: "i + 1 \<le> ?L div ?s" using s by simp
  have "1 * (i + 1) \<le> ?s * (i + 1)"
    using s i0 by (intro mult_right_mono) auto
  with \<open>?s * (i + 1) \<le> ?L\<close> have "i + 1 \<le> ?L" by simp
  with i0 d show ?thesis by simp
qed

lemma Load_negative_size:
  "Size (dec it) < 0 \<Longrightarrow> \<exists>e. Iter_Load it i = Inl e"
  by (simp add: Iter_Load_def Let_def slice_def)

lemma sorted_pair:
  assumes "SortedStore it" "0 < Size (dec it)"
    and "Iter_Load it i = Inr ri" "Iter_Load it j = Inr rj" "i < j"
    and ns: "spare it = []"
  shows "\<not> Less (DPoint (dec it) rj) (DPoint (dec it) ri)"
proof -
  let ?n = "int (length (buf it)) div Size (dec it)"
  have bi: "0 \<le> i \<and> i < ?n"
    using Load_bounds [OF assms(2) assms(3) ns] by simp
  have bj: "0 \<le> j \<and> j < ?n"
    using Load_bounds [OF assms(2) assms(4) ns] by simp
  have pts: "Iter_points it = map (\<lambda>i. Iter_IndexPoint it (int i)) [0..<nat ?n]"
    using assms(2) by (simp add: Iter_points_def Iter_Len_def sdiv_pos)
  have "sorted_wrt in_order (Iter_points it)"
    using assms(1) by (simp add: SortedStore_def)
  moreover have "nat i < nat j" "nat j < length (Iter_points it)"
    using bi bj \<open>i < j\<close> by (simp_all add: pts)
  ultimately have "in_order (Iter_points it ! nat i) (Iter_points it ! nat j)"
    by (rule sorted_wrt_nth_less)
  then show ?thesis
    using bi bj assms(3,4) by (simp add: pts IndexPoint_Load in_order_def)
qed

lemma Ranger_loop_calls:
  assumes srt: "SortedStore it" and s: "0 < Size (dec it)" and ns: "spare it = []"
    and agree: "\<And>r p. DLess (dec it) r p = Less (DPoint (dec it) r) p"
  shows "\<exists>cs res. Ranger_loop it from to ctr idx acc = Some (acc @ cs, res)
           \<and> sorted_wrt (\<lambda>a b. \<not> Less (DPoint (dec it) b) (DPoint (dec it) a)) cs
           \<and> (\<forall>r \<in> set cs. \<exists>i \<ge> idx. Iter_Load it i = Inr r
                 \<and> between (Lon (DPoint (dec it) r)) (Lon from) (Lon to)
                 \<and> Less (DPoint (dec it) r) to)"
proof (induction idx arbitrary: acc
    rule: measure_induct_rule [where f = "\<lambda>idx. nat (int (length (buf it)) - idx)"])
  case (less idx)
  let ?R = "\<lambda>a b. \<not> Less (DPoint (dec it) b) (DPoint (dec it) a)"
  let ?Q = "\<lambda>k r. \<exists>i \<ge> k. Iter_Load it i = Inr r
                 \<and> between (Lon (DPoint (dec it) r)) (Lon from) (Lon to)
                 \<and> Less (DPoint (dec it) r) to"
  show ?case
  proof (cases "Iter_Load it idx")
    case (Inl e)
    then have "Ranger_loop it from to ctr idx acc = Some (acc @ [], Inl e)"
      by (subst Ranger_loop.simps) simp
    then show ?thesis by fastforce
  next
    case (Inr r)
    show ?thesis
    proof (cases "DLess (dec it) r to")
      case False
      then have "Ranger_loop it from to ctr idx acc = Some (acc @ [], Inr None)"
        using Inr by (subst Ranger_loop.simps) simp
      then show ?thesis by fastforce
    next
      case True
      have b: "0 \<le> idx \<and> idx < int (length (buf it))"
        using Load_bounds [OF s Inr ns] by simp
      then have dec: "nat (int (length (buf it)) - (idx + 1)) < nat (int (length (buf it)) - idx)"
        by simp
      let ?take = "between (Lon (DPoint (dec it) r)) (Lon from) (Lon to)
                    \<and> (case ctr of None \<Rightarrow> True | Some c \<Rightarrow> c (DPoint (dec it) r))"
      let ?new = "if ?take then [r] else []"
      have step: "Ranger_loop it from to ctr idx acc
                    = Ranger_loop it from to ctr (idx + 1) (acc @ ?new)"
        using Inr True by (subst Ranger_loop.simps) (simp add: Let_def)
      from less.IH [OF dec, of "acc @ ?new"]
      obtain cs res where
        run: "Ranger_loop it from to ctr (idx + 1) (acc @ ?new) = Some ((acc @ ?new) @ cs, res)"
        and so: "sorted_wrt ?R cs" and el: "\<forall>r' \<in> set cs. ?Q (idx + 1) r'"
        by blast
      have after: "?R r r'" if "r' \<in> set cs" for r'
      proof -
        from el that obtain i where "idx + 1 \<le> i" "Iter_Load it i = Inr r'" by blast
        then show ?thesis using sorted_pair [OF srt s Inr _ _ ns, of i r'] by simp
      qed
      have here: "?take \<Longrightarrow> ?Q idx r"
        using Inr True agree by auto
      have weaker: "?Q idx r'" if "r' \<in> set cs" for r'
      proof -
        from el that obtain i where "idx + 1 \<le> i" "Iter_Load it i = Inr r'"
          "between (Lon (DPoint (dec it) r')) (Lon from) (Lon to)" "Less (DPoint (dec it) r') to"
          by blast
        then show ?thesis by (intro exI [of _ i]) simp
      qed
      have "Ranger_loop it from to ctr idx acc = Some (acc @ (?new @ cs), res)"
        using step run by simp
      moreover have "sorted_wrt ?R (?new @ cs)"
        using so after by (simp add: sorted_wrt_append)
      moreover have "\<forall>r' \<in> set (?new @ cs). ?Q idx r'"
        using here weaker by (auto split: if_splits)
      ultimately show ?thesis by blast
    qed
  qed
qed

lemma Ranger_calls_ordered_without_spare:
  assumes srt: "SortedStore it" and ns: "spare it = []"
    and agree: "\<And>r p. DLess (dec it) r p = Less (DPoint (dec it) r) p"
  shows "\<exists>calls res. Ranger it from to ctr = Some (calls, res)
           \<and> sorted_wrt (\<lambda>a b. \<not> Less (DPoint (dec it) b) (DPoint (dec it) a)) calls
           \<and> (\<forall>r \<in> set calls. Lon from \<le> Lon (DPoint (dec it) r)
                 \<and> Lon (DPoint (dec it) r) \<le> Lon to
                 \<and> Less (DPoint (dec it) r) to)"
proof (cases "Iter_Len it")
  case (Inl e)
  then show ?thesis by (simp add: Ranger_def)
next
  case len: (Inr sz)
  let ?f = "\<lambda>i. case Iter_IndexPoint it i of Inl e \<Rightarrow> Inl e | Inr p \<Rightarrow> Inr (Less from p)"
  let ?P = "\<lambda>cs. sorted_wrt (\<lambda>a b. \<not> Less (DPoint (dec it) b) (DPoint (dec it) a)) cs
           \<and> (\<forall>r \<in> set cs. Lon from \<le> Lon (DPoint (dec it) r)
                 \<and> Lon (DPoint (dec it) r) \<le> Lon to
                 \<and> Less (DPoint (dec it) r) to)"
  from len have nz: "Size (dec it) \<noteq> 0"
    by (auto simp: Iter_Len_def split: if_splits)
  have loop: "\<exists>cs res. Ranger_loop it from to ctr idx [] = Some (cs, res) \<and> ?P cs" for idx
  proof (cases "0 < Size (dec it)")
    case True
    from Ranger_loop_calls [OF srt True ns agree, of "from" "to" ctr idx "[]"]
    obtain cs res where "Ranger_loop it from to ctr idx [] = Some (cs, res)"
      "sorted_wrt (\<lambda>a b. \<not> Less (DPoint (dec it) b) (DPoint (dec it) a)) cs"
      "\<forall>r \<in> set cs. \<exists>i \<ge> idx. Iter_Load it i = Inr r
                 \<and> between (Lon (DPoint (dec it) r)) (Lon from) (Lon to)
                 \<and> Less (DPoint (dec it) r) to"
      by auto
    then show ?thesis by (auto simp: between_def)
  next
    case False
    with nz have "Size (dec it) < 0" by simp
    from Load_negative_size [OF this, of idx] obtain e where "Iter_Load it idx = Inl e" ..
    then have "Ranger_loop it from to ctr idx [] = Some ([], Inl e)"
      by (subst Ranger_loop.simps) simp
    then show ?thesis by simp
  qed
  show ?thesis
  proof (cases "Search sz ?f")
    case (Inl e)
    then show ?thesis using len by (simp add: Ranger_def)
  next
    case (Inr idx)
    show ?thesis
    proof (cases "idx = sz")
      case True
      then show ?thesis using len Inr by (simp add: Ranger_def)
    next
      case False
      then have "Ranger it from to ctr = Ranger_loop it from to ctr idx []"
        using len Inr by (simp add: Ranger_def)
      with loop [of idx] show ?thesis by simp
    qed
  qed
qed

end
